theory Spec2Isabelle
  imports Complex_Main "HOL-Library.Word" "HOL-Library.Multiset" "HOL-Library.Sublist"
begin

section \<open>Numbers on the extended integer line\<close>

text \<open>
  The numeric-range engine of package \<open>yang\<close>. A \<open>Number\<close> is a discriminant, a 64-bit
  unsigned magnitude and the float64 that a literal with a decimal point was parsed to.
  Go's \<open>uint64\<close> is \<open>64 word\<close>, \<open>int64\<close> is \<open>64 word\<close> read with \<open>sint\<close>.

  The \<open>Decimal\<close> field is a float64 in the source. Every float64 that the parser stores
  in a Number it returns without an error is finite, and the only operation the engine
  applies to the field is \<open>==\<close>; the field is therefore modelled by the rational number
  the float64 denotes (the two signed zeros denote 0, and \<open>==\<close> identifies them as well).
\<close>

datatype NumberKind = Positive | Negative | MinNumber | MaxNumber

record Number =
  Kind :: NumberKind
  Value :: "64 word"
  Decimal :: rat

definition MaxInt64 :: "64 word" where
  "MaxInt64 = 0x7FFFFFFFFFFFFFFF"

definition MinInt64 :: "64 word" where
  "MinInt64 = 0x8000000000000000"

definition AbsMinInt64 :: "64 word" where
  "AbsMinInt64 = 0x8000000000000000"

definition maxNumber :: Number where
  "maxNumber = \<lparr>Kind = MaxNumber, Value = 0, Decimal = 0\<rparr>"

definition minNumber :: Number where
  "minNumber = \<lparr>Kind = MinNumber, Value = 0, Decimal = 0\<rparr>"

text \<open>\<open>FromInt\<close>: the argument is an int64; \<open>-i\<close> wraps at the minimum, as in Go.\<close>

definition FromInt :: "64 word \<Rightarrow> Number" where
  "FromInt i =
     (if i <s 0 then \<lparr>Kind = Negative, Value = - i, Decimal = 0\<rparr>
      else \<lparr>Kind = Positive, Value = i, Decimal = 0\<rparr>)"

definition FromUint :: "64 word \<Rightarrow> Number" where
  "FromUint i = \<lparr>Kind = Positive, Value = i, Decimal = 0\<rparr>"

datatype error =
    ErrEmptyString          \<comment> \<open>converting empty string to number\<close>
  | ErrSignNoValue          \<comment> \<open>sign with no value\<close>
  | ErrTooManyDots          \<comment> \<open>can't convert to decimal: too many .s\<close>
  | ErrSyntax               \<comment> \<open>strconv.ErrSyntax\<close>
  | ErrRange                \<comment> \<open>strconv.ErrRange\<close>
  | ErrTooManyDotDots       \<comment> \<open>two many ..'s in s\<close>
  | ErrMaxLessThanMin       \<comment> \<open>max less than min\<close>
  | ErrInvalidNumber        \<comment> \<open>invalid number\<close>
  | ErrOverlappingRanges    \<comment> \<open>overlapping ranges\<close>
  | ErrSignedOverflow       \<comment> \<open>signed integer overflow\<close>

text \<open>\<open>Number.Int\<close>: the switch falls through to the overflow error.\<close>

definition Number_Int :: "Number \<Rightarrow> error + 64 word" where
  "Number_Int n =
     (case Kind n of
        MinNumber \<Rightarrow> Inr MinInt64
      | MaxNumber \<Rightarrow> Inr MaxInt64
      | Negative \<Rightarrow>
          (if Value n = AbsMinInt64 then Inr MinInt64
           else if Value n < AbsMinInt64 then Inr (- Value n)
           else Inl ErrSignedOverflow)
      | Positive \<Rightarrow>
          (if Value n \<le> MaxInt64 then Inr (Value n)
           else Inl ErrSignedOverflow))"

text \<open>\<open>Number.add\<close>: no overflow check, the unsigned addition wraps.\<close>

definition Number_add :: "Number \<Rightarrow> 64 word \<Rightarrow> Number" where
  "Number_add n i =
     (case Kind n of
        MinNumber \<Rightarrow> n
      | MaxNumber \<Rightarrow> n
      | Negative \<Rightarrow>
          (if Value n \<le> i then n\<lparr>Value := i - Value n, Kind := Positive\<rparr>
           else n\<lparr>Value := Value n - i\<rparr>)
      | Positive \<Rightarrow> n\<lparr>Value := Value n + i\<rparr>)"

text \<open>\<open>Number.Less\<close>, the cases in the order of the source's switch.\<close>

definition Number_Less :: "Number \<Rightarrow> Number \<Rightarrow> bool" where
  "Number_Less n m =
     (if Kind m = MinNumber then False
      else if Kind n = MinNumber then True
      else if Kind n = MaxNumber then False
      else if Kind m = MaxNumber then True
      else if Kind n = Negative \<and> Kind m \<noteq> Negative then True
      else if Kind n \<noteq> Negative \<and> Kind m = Negative then False
      else if Kind n = Negative then Value n > Value m
      else Value n < Value m)"

text \<open>\<open>Number.Equal\<close> is Go's \<open>==\<close> on the struct: all three fields.\<close>

definition Number_Equal :: "Number \<Rightarrow> Number \<Rightarrow> bool" where
  "Number_Equal n m = (n = m)"

section \<open>Ranges\<close>

record YRange =
  Min_r :: Number
  Max_r :: Number

type_synonym YangRange = "YRange list"

definition YRange_Valid :: "YRange \<Rightarrow> bool" where
  "YRange_Valid r = (\<not> Number_Less (Max_r r) (Min_r r))"

text \<open>
  \<open>coalesce\<close>: \<open>cr[i]\<close> is the accumulator \<open>acc\<close>; the ranges before it are closed and
  never touched again, so the loop emits them as it goes.
\<close>

fun coalesce_loop :: "YRange \<Rightarrow> YangRange \<Rightarrow> YangRange" where
  "coalesce_loop acc [] = [acc]"
| "coalesce_loop acc (r1 # rs) =
     (if Number_Less (Number_add (Max_r acc) 1) (Min_r r1) then acc # coalesce_loop r1 rs
      else if Number_Less (Max_r acc) (Max_r r1) then coalesce_loop (acc\<lparr>Max_r := Max_r r1\<rparr>) rs
      else coalesce_loop acc rs)"

fun coalesce :: "YangRange \<Rightarrow> YangRange" where
  "coalesce [] = []"
| "coalesce [r] = [r]"
| "coalesce (r0 # r1 # rs) = coalesce_loop r0 (r1 # rs)"

text \<open>\<open>YangRange.Less\<close> of the sort interface, on two elements.\<close>

definition YangRange_Less :: "YRange \<Rightarrow> YRange \<Rightarrow> bool" where
  "YangRange_Less a b =
     (if Number_Less (Min_r a) (Min_r b) then True
      else if Number_Less (Min_r b) (Min_r a) then False
      else Number_Less (Max_r a) (Max_r b))"

text \<open>
  \<open>sort.Sort\<close> is modelled by the insertion sort that the Go library runs on short
  slices: element \<open>i\<close> is swapped towards the front while it is less than its left
  neighbour. \<open>insert_left\<close> takes the sorted front part in reverse (nearest neighbour
  first). On longer slices (more than 12 elements; in the releases before Go 1.19 more
  than 6) the library takes other, unstable steps as well. Every variant returns the
  elements in order; the variants can differ only in the order of elements that
  \<open>YangRange.Less\<close> does not separate, which are ranges that differ in \<open>Decimal\<close>
  components alone. Nothing below is stated that depends on the order the model
  gives to such ranges.
\<close>

fun insert_left :: "YRange \<Rightarrow> YangRange \<Rightarrow> YangRange" where
  "insert_left x [] = [x]"
| "insert_left x (y # ys) =
     (if YangRange_Less x y then y # insert_left x ys else x # y # ys)"

definition sort_Sort :: "YangRange \<Rightarrow> YangRange" where
  "sort_Sort r = rev (foldl (\<lambda>front x. insert_left x front) [] r)"

text \<open>
  \<open>Validate\<close> sorts its receiver in place and returns an error or nil. The model returns
  the receiver's elements after the call together with the result. The loop compares
  every later range with \<open>p\<close>, which stays \<open>r[0]\<close>.
\<close>

fun Validate_loop :: "YRange \<Rightarrow> YangRange \<Rightarrow> error option" where
  "Validate_loop p [] = None"
| "Validate_loop p (n # ns) =
     (if Number_Less (Min_r n) (Max_r p) then Some ErrOverlappingRanges
      else Validate_loop p ns)"

definition Validate :: "YangRange \<Rightarrow> YangRange \<times> error option" where
  "Validate r =
     (let r' = sort_Sort r in
      (r', case r' of
             [] \<Rightarrow> None
           | p # ns \<Rightarrow> if \<not> YRange_Valid p then Some ErrInvalidNumber else Validate_loop p ns))"

text \<open>
  \<open>Contains\<close>: the goroutine feeds the ranges of \<open>r\<close> in order through a channel; \<open>rr\<close> is
  the range last received and \<open>rest\<close> what the channel still holds. A receive from the
  closed channel (\<open>rest\<close> empty) makes \<open>Contains\<close> return false.
\<close>

fun Contains_advance :: "YRange \<Rightarrow> YangRange \<Rightarrow> Number \<Rightarrow> (YRange \<times> YangRange) option" where
  "Contains_advance rr rest m =
     (if Number_Less (Max_r rr) m then
        (case rest of [] \<Rightarrow> None | r # rs \<Rightarrow> Contains_advance r rs m)
      else Some (rr, rest))"

fun Contains_loop :: "YRange \<Rightarrow> YangRange \<Rightarrow> YangRange \<Rightarrow> bool" where
  "Contains_loop rr rest [] = True"
| "Contains_loop rr rest (ss # s) =
     (case (if Kind (Min_r ss) \<noteq> MinNumber then Contains_advance rr rest (Min_r ss)
            else Some (rr, rest)) of
        None \<Rightarrow> False
      | Some (rr', rest') \<Rightarrow>
          if Kind (Max_r ss) = MaxNumber \<or> Kind (Min_r ss) = MinNumber
          then Contains_loop rr' rest' s
          else if Number_Less (Min_r ss) (Min_r rr') \<or> Number_Less (Max_r rr') (Max_r ss)
          then False
          else Contains_loop rr' rest' s)"

definition Contains :: "YangRange \<Rightarrow> YangRange \<Rightarrow> bool" where
  "Contains r s =
     (case r of
        [] \<Rightarrow> True
      | rr # rest \<Rightarrow> (case s of [] \<Rightarrow> True | _ # _ \<Rightarrow> Contains_loop rr rest s))"

section \<open>The Go library functions the engine calls\<close>

text \<open>
  A Go string is a sequence of bytes; \<open>string\<close> is a list of 8-bit characters.

  \<open>strings.TrimSpace\<close> removes, first from the front and then from the back, every
  UTF-8 encoded code point for which \<open>unicode.IsSpace\<close> holds. \<open>space_seqs\<close> lists
  their encodings: U+0009 to U+000D, U+0020, U+0085, U+00A0, U+1680, U+2000 to U+200A,
  U+2028, U+2029, U+202F, U+205F and U+3000. A byte that starts no such encoding
  (an invalid sequence too, which decodes to U+FFFD) stops the trimming.
\<close>

definition space_seqs :: "string list" where
  "space_seqs =
     [[CHR 0x09], [CHR 0x0A], [CHR 0x0B], [CHR 0x0C], [CHR 0x0D], [CHR 0x20],
      [CHR 0xC2, CHR 0x85], [CHR 0xC2, CHR 0xA0],
      [CHR 0xE1, CHR 0x9A, CHR 0x80],
      [CHR 0xE2, CHR 0x80, CHR 0x80], [CHR 0xE2, CHR 0x80, CHR 0x81],
      [CHR 0xE2, CHR 0x80, CHR 0x82], [CHR 0xE2, CHR 0x80, CHR 0x83],
      [CHR 0xE2, CHR 0x80, CHR 0x84], [CHR 0xE2, CHR 0x80, CHR 0x85],
      [CHR 0xE2, CHR 0x80, CHR 0x86], [CHR 0xE2, CHR 0x80, CHR 0x87],
      [CHR 0xE2, CHR 0x80, CHR 0x88], [CHR 0xE2, CHR 0x80, CHR 0x89],
      [CHR 0xE2, CHR 0x80, CHR 0x8A],
      [CHR 0xE2, CHR 0x80, CHR 0xA8], [CHR 0xE2, CHR 0x80, CHR 0xA9],
      [CHR 0xE2, CHR 0x80, CHR 0xAF],
      [CHR 0xE2, CHR 0x81, CHR 0x9F],
      [CHR 0xE3, CHR 0x80, CHR 0x80]]"

text \<open>The width in bytes of the white space at the front (at the back) of \<open>s\<close>, or 0.\<close>

definition space_len :: "string \<Rightarrow> nat" where
  "space_len s = (case find (\<lambda>p. prefix p s) space_seqs of None \<Rightarrow> 0 | Some p \<Rightarrow> length p)"

definition last_space_len :: "string \<Rightarrow> nat" where
  "last_space_len s = (case find (\<lambda>p. suffix p s) space_seqs of None \<Rightarrow> 0 | Some p \<Rightarrow> length p)"

function TrimLeft :: "string \<Rightarrow> string" where
  "TrimLeft s = (if space_len s = 0 then s else TrimLeft (drop (space_len s) s))"
  by pat_completeness auto
termination
proof (relation "measure length")
  show "wf (measure length)" by simp
next
  fix s :: string
  assume "space_len s \<noteq> 0"
  moreover have "space_len s \<le> length s"
    by (auto simp: space_len_def find_Some_iff prefix_def split: option.splits)
  ultimately show "(drop (space_len s) s, s) \<in> measure length"
    by (cases s) auto
qed

function TrimRight :: "string \<Rightarrow> string" where
  "TrimRight s =
     (if last_space_len s = 0 then s else TrimRight (take (length s - last_space_len s) s))"
  by pat_completeness auto
termination
proof (relation "measure length")
  show "wf (measure length)" by simp
next
  fix s :: string
  assume "last_space_len s \<noteq> 0"
  moreover have "last_space_len s \<le> length s"
    by (auto simp: last_space_len_def find_Some_iff suffix_def split: option.splits)
  ultimately show "(take (length s - last_space_len s) s, s) \<in> measure length"
    by (cases s) auto
qed

definition TrimSpace :: "string \<Rightarrow> string" where
  "TrimSpace s = TrimRight (TrimLeft s)"

text \<open>
  \<open>strings.Split s sep\<close> for a separator that is not empty (the engine passes \<open>|\<close>, \<open>..\<close>
  and \<open>.\<close>): the pieces between the leftmost occurrences of \<open>sep\<close> that do not overlap.
  \<open>cur\<close> is the piece being read, in reverse.
\<close>

function Split_loop :: "char \<Rightarrow> string \<Rightarrow> string \<Rightarrow> string \<Rightarrow> string list" where
  "Split_loop d ds cur [] = [rev cur]"
| "Split_loop d ds cur (c # cs) =
     (if c = d \<and> prefix ds cs then rev cur # Split_loop d ds [] (drop (length ds) cs)
      else Split_loop d ds (c # cur) cs)"
  by pat_completeness auto
termination
  by (relation "measure (\<lambda>(d, ds, cur, s). length s)") auto

fun Split :: "string \<Rightarrow> string \<Rightarrow> string list" where
  "Split s (d # ds) = Split_loop d ds [] s"

text \<open>
  \<open>strconv.ParseUint s 0 64\<close>, as the source's comment describes it (the library up to
  Go 1.12): a leading \<open>0x\<close> selects base 16, another leading \<open>0\<close> base 8, anything else
  base 10; a character that is no digit of the base is a syntax error, a value above
  \<open>2^64 - 1\<close> a range error, whichever the scan from the left meets first. Go 1.13 added
  the prefixes \<open>0b\<close> and \<open>0o\<close> and underscores between digits, which are not modelled.
\<close>

definition digit_val :: "char \<Rightarrow> int option" where
  "digit_val c =
     (let k = (of_char c :: int) in
      if 48 \<le> k \<and> k \<le> 57 then Some (k - 48)
      else if 97 \<le> k \<and> k \<le> 122 then Some (k - 87)
      else if 65 \<le> k \<and> k \<le> 90 then Some (k - 55)
      else None)"

fun ParseUint_loop :: "int \<Rightarrow> int \<Rightarrow> string \<Rightarrow> error + int" where
  "ParseUint_loop base n [] = Inr n"
| "ParseUint_loop base n (c # cs) =
     (case digit_val c of
        None \<Rightarrow> Inl ErrSyntax
      | Some v \<Rightarrow>
          if base \<le> v then Inl ErrSyntax
          else if 2 ^ 64 \<le> n * base + v then Inl ErrRange
          else ParseUint_loop base (n * base + v) cs)"

definition ParseUint :: "string \<Rightarrow> error + 64 word" where
  "ParseUint s =
     map_sum id word_of_int
       (case s of
          [] \<Rightarrow> Inl ErrSyntax
        | c # cs \<Rightarrow>
            if c = CHR ''0'' then
              (case cs of
                 [] \<Rightarrow> ParseUint_loop 8 0 cs
               | d # ds \<Rightarrow>
                   if d = CHR ''x'' \<or> d = CHR ''X'' then
                     (if ds = [] then Inl ErrSyntax else ParseUint_loop 16 0 ds)
                   else ParseUint_loop 8 0 cs)
            else ParseUint_loop 10 0 s)"

text \<open>\<open>strconv.FormatUint v 10\<close>: the decimal digits, most significant first.\<close>

definition digit_char :: "int \<Rightarrow> char" where
  "digit_char d = char_of (48 + d)"

function digits10 :: "int \<Rightarrow> string" where
  "digits10 n = (if n < 10 then [digit_char n] else digits10 (n div 10) @ [digit_char (n mod 10)])"
  by pat_completeness auto
termination
  by (relation "measure nat") auto

definition FormatUint :: "64 word \<Rightarrow> string" where
  "FormatUint v = digits10 (uint v)"

text \<open>
  \<open>strconv.ParseFloat s 64\<close> on the strings the engine passes, which contain a \<open>.\<close> (so
  the spellings of infinity and NaN, which have none, never arrive): an optional sign,
  decimal digits with at most one point and at least one digit, and an optional
  exponent \<open>e\<close> or \<open>E\<close> with optional sign and at least one digit. The library stops
  accumulating the exponent once it has reached 10000. The result is the float64
  nearest to the decimal value, ties to the even mantissa; a result of magnitude
  \<open>2^1024\<close> or more is a range error. Hexadecimal mantissas and underscores (Go 1.13) are
  not modelled.
\<close>

definition is_digit :: "char \<Rightarrow> bool" where
  "is_digit c = (48 \<le> (of_char c :: int) \<and> (of_char c :: int) \<le> 57)"

fun scan_mantissa :: "int \<Rightarrow> int \<Rightarrow> bool \<Rightarrow> bool \<Rightarrow> string
    \<Rightarrow> (int \<times> int \<times> bool \<times> string) option" where
  "scan_mantissa mant nfrac sawdot sawdigits [] = Some (mant, nfrac, sawdigits, [])"
| "scan_mantissa mant nfrac sawdot sawdigits (c # cs) =
     (if c = CHR ''.'' then
        (if sawdot then None else scan_mantissa mant nfrac True sawdigits cs)
      else if is_digit c then
        scan_mantissa (mant * 10 + (of_char c - 48)) (if sawdot then nfrac + 1 else nfrac)
          sawdot True cs
      else Some (mant, nfrac, sawdigits, c # cs))"

fun scan_exponent :: "int \<Rightarrow> string \<Rightarrow> int \<times> string" where
  "scan_exponent e [] = (e, [])"
| "scan_exponent e (c # cs) =
     (if is_digit c then scan_exponent (if e < 10000 then e * 10 + (of_char c - 48) else e) cs
      else (e, c # cs))"

text \<open>The exponent after \<open>e\<close>: an optional sign and at least one digit, up to the end.\<close>

definition read_exponent :: "string \<Rightarrow> int option" where
  "read_exponent cs =
     (case cs of
        [] \<Rightarrow> None
      | x # xs \<Rightarrow>
          let ds = (if x = CHR ''+'' \<or> x = CHR ''-'' then xs else cs) in
          (case ds of
             [] \<Rightarrow> None
           | d # _ \<Rightarrow>
               if \<not> is_digit d then None
               else
                 (case scan_exponent 0 ds of
                    (e, []) \<Rightarrow> Some (if x = CHR ''-'' then - e else e)
                  | (e, _ # _) \<Rightarrow> None)))"

text \<open>\<open>readFloat\<close>: the sign, the digits read as one integer, and the power of ten.\<close>

definition readFloat :: "string \<Rightarrow> (bool \<times> int \<times> int) option" where
  "readFloat s =
     (case s of
        [] \<Rightarrow> None
      | c0 # s0 \<Rightarrow>
          let neg = (c0 = CHR ''-'');
              s1 = (if c0 = CHR ''+'' \<or> c0 = CHR ''-'' then s0 else s)
          in (case scan_mantissa 0 0 False False s1 of
                None \<Rightarrow> None
              | Some (mant, nfrac, sawdigits, rest) \<Rightarrow>
                  if \<not> sawdigits then None
                  else
                    (case rest of
                       [] \<Rightarrow> Some (neg, mant, - nfrac)
                     | c # cs \<Rightarrow>
                         if c = CHR ''e'' \<or> c = CHR ''E'' then
                           (case read_exponent cs of
                              None \<Rightarrow> None
                            | Some e \<Rightarrow> Some (neg, mant, e - nfrac))
                         else None)))"

definition pow2 :: "int \<Rightarrow> rat" where
  "pow2 e = (if 0 \<le> e then 2 ^ nat e else 1 / 2 ^ nat (- e))"

definition pow10 :: "int \<Rightarrow> rat" where
  "pow10 e = (if 0 \<le> e then 10 ^ nat e else 1 / 10 ^ nat (- e))"

text \<open>The number of binary digits of a positive integer.\<close>

function nbits :: "int \<Rightarrow> int" where
  "nbits n = (if n \<le> 0 then 0 else 1 + nbits (n div 2))"
  by pat_completeness auto
termination
  by (relation "measure nat") auto

text \<open>For \<open>q > 0\<close>, the exponent \<open>e\<close> with \<open>2^e \<le> q < 2^(e+1)\<close>.\<close>

definition floor_log2 :: "rat \<Rightarrow> int" where
  "floor_log2 q =
     (let (a, b) = quotient_of q;
          e0 = nbits a - nbits b
      in if pow2 e0 \<le> q then e0 else e0 - 1)"

definition round_to_even :: "rat \<Rightarrow> int" where
  "round_to_even x =
     (let f = \<lfloor>x\<rfloor>; r = x - of_int f
      in if r < 1 / 2 then f else if 1 / 2 < r then f + 1 else if even f then f else f + 1)"

text \<open>
  Rounding to float64: 53 bits of mantissa, the least exponent of a mantissa bit
  \<open>-1074\<close>. \<open>None\<close> is the overflow to infinity.
\<close>

definition float64_round :: "rat \<Rightarrow> rat option" where
  "float64_round q =
     (if q = 0 then Some 0
      else
        let a = \<bar>q\<bar>;
            ulp = pow2 (max (floor_log2 a - 52) (- 1074));
            v = of_int (round_to_even (a / ulp)) * ulp
        in if pow2 1024 \<le> v then None else Some (if q < 0 then - v else v))"

definition ParseFloat :: "string \<Rightarrow> error + rat" where
  "ParseFloat s =
     (case readFloat s of
        None \<Rightarrow> Inl ErrSyntax
      | Some (neg, mant, e) \<Rightarrow>
          (case float64_round ((if neg then - 1 else 1) * of_int mant * pow10 e) of
             None \<Rightarrow> Inl ErrRange
           | Some d \<Rightarrow> Inr d))"

text \<open>
  The conversion \<open>uint64(dec)\<close> discards the fraction. Where the truncated value is not
  a uint64 the Go specification leaves the result to the implementation:
  \<open>uint64_unspecified\<close> is that result, a function of the float about which nothing
  is known.
\<close>

definition uint64_unspecified :: "rat \<Rightarrow> 64 word" where
  "uint64_unspecified = undefined"

definition uint64_of_float :: "rat \<Rightarrow> 64 word" where
  "uint64_of_float dec =
     (let t = (if 0 \<le> dec then \<lfloor>dec\<rfloor> else \<lceil>dec\<rceil>)
      in if 0 \<le> t \<and> t < 2 ^ 64 then word_of_int t else uint64_unspecified dec)"

section \<open>Parsing and rendering\<close>

text \<open>
  \<open>ParseNumber\<close>. Go returns the Number together with the error; the model returns the
  error alone, as every caller drops the Number then.
\<close>

definition ParseNumber :: "string \<Rightarrow> error + Number" where
  "ParseNumber s0 =
     (let s = TrimSpace s0 in
      if s = ''max'' then Inr maxNumber
      else if s = ''min'' then Inr minNumber
      else if s = [] then Inl ErrEmptyString
      else if s = ''+'' \<or> s = ''-'' then Inl ErrSignNoValue
      else
        let k = (if hd s = CHR ''-'' then Negative else Positive);
            s1 = (if hd s = CHR ''+'' \<or> hd s = CHR ''-'' then tl s else s);
            parts = Split s1 ''.''
        in if length parts = 1 then
             (case ParseUint s1 of
                Inl e \<Rightarrow> Inl e
              | Inr v \<Rightarrow> Inr \<lparr>Kind = k, Value = v, Decimal = 0\<rparr>)
           else if 2 < length parts then Inl ErrTooManyDots
           else
             (case ParseFloat s1 of
                Inl e \<Rightarrow> Inl e
              | Inr dec \<Rightarrow> Inr \<lparr>Kind = k, Value = uint64_of_float dec, Decimal = dec\<rparr>))"

definition Number_String :: "Number \<Rightarrow> string" where
  "Number_String n =
     (case Kind n of
        Negative \<Rightarrow> ''-'' @ FormatUint (Value n)
      | MinNumber \<Rightarrow> ''min''
      | MaxNumber \<Rightarrow> ''max''
      | Positive \<Rightarrow> FormatUint (Value n))"

text \<open>
  \<open>ParseRanges\<close>: the loop over the members returns at the first member that fails;
  then \<open>Validate\<close> (which sorts) and \<open>coalesce\<close>.
\<close>

fun ParseRanges_loop :: "string list \<Rightarrow> error + YangRange" where
  "ParseRanges_loop [] = Inr []"
| "ParseRanges_loop (s # ss) =
     (let parts = Split s ''..'' in
      case ParseNumber (hd parts) of
        Inl e \<Rightarrow> Inl e
      | Inr mn \<Rightarrow>
          (case (case tl parts of
                   [] \<Rightarrow> Inr mn
                 | [p1] \<Rightarrow> ParseNumber p1
                 | _ # _ # _ \<Rightarrow> Inl ErrTooManyDotDots) of
             Inl e \<Rightarrow> Inl e
           | Inr mx \<Rightarrow>
               if Number_Less mx mn then Inl ErrMaxLessThanMin
               else
                 (case ParseRanges_loop ss of
                    Inl e \<Rightarrow> Inl e
                  | Inr r \<Rightarrow> Inr (\<lparr>Min_r = mn, Max_r = mx\<rparr> # r))))"

definition ParseRanges :: "string \<Rightarrow> error + YangRange" where
  "ParseRanges s =
     (case ParseRanges_loop (Split s ''|'') of
        Inl e \<Rightarrow> Inl e
      | Inr r \<Rightarrow>
          (case Validate r of
             (r', Some e) \<Rightarrow> Inl e
           | (r', None) \<Rightarrow> Inr (coalesce r')))"

section \<open>Predicates of the statements\<close>

text \<open>Two neighbours that \<open>coalesce\<close> keeps apart: the first's high plus one is less than the second's low.\<close>

definition coalesce_gap :: "YRange \<Rightarrow> YRange \<Rightarrow> bool" where
  "coalesce_gap a b = Number_Less (Number_add (Max_r a) 1) (Min_r b)"

text \<open>
  The position of a Number on the line that \<open>Number.Less\<close> orders: the minimum sentinel,
  the Negative values by decreasing magnitude (down to \<open>-0\<close>), the Positive values by
  increasing magnitude, the maximum sentinel.
\<close>

definition Number_key :: "Number \<Rightarrow> int" where
  "Number_key n =
     (case Kind n of
        MinNumber \<Rightarrow> - (2 ^ 64) - 1
      | Negative \<Rightarrow> - uint (Value n) - 1
      | Positive \<Rightarrow> uint (Value n)
      | MaxNumber \<Rightarrow> 2 ^ 64)"

text \<open>A set is in order when no range is less, by \<open>YangRange.Less\<close>, than a range before it.\<close>

definition in_order :: "YangRange \<Rightarrow> bool" where
  "in_order r = sorted_wrt (\<lambda>a b. \<not> YangRange_Less b a) r"

text \<open>
  A Number without a decimal component, and with magnitude 0 if it is a sentinel: what
  \<open>FromInt\<close>, \<open>FromUint\<close> and \<open>ParseNumber\<close> on a literal without a point build. On these
  Numbers equal positions mean equal Numbers.
\<close>

definition integral :: "Number \<Rightarrow> bool" where
  "integral n =
     (Decimal n = 0 \<and> (if Kind n = MinNumber \<or> Kind n = MaxNumber then Value n = 0 else True))"

section \<open>Containment\<close>




text \<open>
  C8. An empty candidate set is contained in every set, and the empty base contains
  every set: \<open>Contains\<close> returns true before it looks at a range.
\<close>

theorem C8_contains_empty: "Contains S [] \<and> Contains [] S"
  by (simp add: Contains_def split: list.splits)

section \<open>Conversion to int64\<close>

text \<open>
  C4, as amended. \<open>Number.Int\<close> fails exactly when the value is Positive with a magnitude
  above \<open>2^63 - 1\<close> or Negative with a magnitude above \<open>2^63\<close>; the overflow error is its
  only error; the minimum sentinel gives the least int64 and the maximum sentinel the
  greatest, without error.
\<close>

theorem C4_Int_fails_iff:
  "(Number_Int n = Inl ErrSignedOverflow) =
     (Kind n = Positive \<and> MaxInt64 < Value n \<or> Kind n = Negative \<and> AbsMinInt64 < Value n)
   \<and> (Number_Int n = Inl e \<longrightarrow> e = ErrSignedOverflow)
   \<and> (Kind n = MinNumber \<longrightarrow> Number_Int n = Inr MinInt64)
   \<and> (Kind n = MaxNumber \<longrightarrow> Number_Int n = Inr MaxInt64)"
  by (cases "Kind n") (auto simp: Number_Int_def)

theorem C4_Int_fails_iff_witness:
  "Number_Int (FromUint 9223372036854775808) = Inl ErrSignedOverflow
   \<and> Number_Int minNumber = Inr MinInt64
   \<and> Number_Int maxNumber = Inr MaxInt64"
proof -
  have p: "Kind (FromUint 9223372036854775808) = Positive
      \<and> MaxInt64 < Value (FromUint 9223372036854775808)"
    by (simp add: FromUint_def MaxInt64_def)
  have "Number_Int (FromUint 9223372036854775808) = Inl ErrSignedOverflow"
    using C4_Int_fails_iff [of "FromUint 9223372036854775808" ErrSignedOverflow] p by blast
  moreover have "Number_Int minNumber = Inr MinInt64"
    using C4_Int_fails_iff [of minNumber ErrSignedOverflow] by (simp add: minNumber_def)
  moreover have "Number_Int maxNumber = Inr MaxInt64"
    using C4_Int_fails_iff [of maxNumber ErrSignedOverflow] by (simp add: maxNumber_def)
  ultimately show ?thesis by blast
qed

text \<open>
  The literal \<open>-9223372036854775809\<close> parses to a Negative number of magnitude
  \<open>2^63 + 1\<close>, and \<open>Number.Int\<close> fails on it: a failure on a value that is not Positive.
\<close>

theorem C4_counterexample:
  "ParseNumber ''-9223372036854775809''
     = Inr \<lparr>Kind = Negative, Value = 9223372036854775809, Decimal = 0\<rparr>
   \<and> Number_Int \<lparr>Kind = Negative, Value = 9223372036854775809, Decimal = 0\<rparr>
     = Inl ErrSignedOverflow"
  by code_simp

section \<open>Coalescing\<close>

lemma coalesce_loop_hd: "Min_r (hd (coalesce_loop acc rs)) = Min_r acc"
  by (induction rs arbitrary: acc) auto

lemma coalesce_loop_nonempty: "coalesce_loop acc rs \<noteq> []"
  by (induction rs arbitrary: acc) auto

lemma coalesce_loop_gaps: "successively coalesce_gap (coalesce_loop acc rs)"
proof (induction rs arbitrary: acc)
  case Nil
  show ?case by simp
next
  case (Cons r1 rs)
  show ?case
  proof (cases "coalesce_gap acc r1")
    case True
    obtain x xs where out: "coalesce_loop r1 rs = x # xs"
      using coalesce_loop_nonempty [of r1 rs] by (cases "coalesce_loop r1 rs") auto
    have "Min_r x = Min_r r1"
      using coalesce_loop_hd [of r1 rs] out by simp
    with True have "coalesce_gap acc x" by (simp add: coalesce_gap_def)
    moreover have "successively coalesce_gap (x # xs)"
      using Cons.IH [of r1] out by simp
    ultimately show ?thesis
      using True out by (simp add: coalesce_gap_def)
  next
    case False
    then show ?thesis
      using Cons.IH by (simp add: coalesce_gap_def)
  qed
qed

lemma coalesce_loop_fixed:
  "successively coalesce_gap (a # rs) \<Longrightarrow> coalesce_loop a rs = a # rs"
  by (induction rs arbitrary: a) (auto simp: coalesce_gap_def)

lemma coalesce_idem: "coalesce (coalesce S) = coalesce S"
proof (cases S rule: coalesce.cases)
  case (3 r0 r1 rs)
  obtain x xs where out: "coalesce_loop r0 (r1 # rs) = x # xs"
    using coalesce_loop_nonempty [of r0 "r1 # rs"] by (cases "coalesce_loop r0 (r1 # rs)") auto
  have g: "successively coalesce_gap (x # xs)"
    using coalesce_loop_gaps [of r0 "r1 # rs"] out by simp
  have "coalesce (x # xs) = x # xs"
  proof (cases xs)
    case Nil
    then show ?thesis by simp
  next
    case (Cons y ys)
    then show ?thesis using coalesce_loop_fixed [OF g] by simp
  qed
  then show ?thesis using 3 out by simp
qed simp_all

text \<open>
  C6. On a set that \<open>Validate\<close> has accepted (and sorted), coalescing twice gives what
  coalescing once gives. (\<open>coalesce_idem\<close> shows it for every set.)
\<close>

theorem C6_coalesce_idempotent:
  "Validate S = (S', None) \<Longrightarrow> coalesce (coalesce S') = coalesce S'"
  by (rule coalesce_idem)

theorem C6_coalesce_idempotent_witness:
  "Validate [\<lparr>Min_r = FromUint 6, Max_r = FromUint 10\<rparr>, \<lparr>Min_r = FromUint 1, Max_r = FromUint 5\<rparr>]
     = ([\<lparr>Min_r = FromUint 1, Max_r = FromUint 5\<rparr>, \<lparr>Min_r = FromUint 6, Max_r = FromUint 10\<rparr>], None)
   \<and> coalesce [\<lparr>Min_r = FromUint 1, Max_r = FromUint 5\<rparr>, \<lparr>Min_r = FromUint 6, Max_r = FromUint 10\<rparr>]
     = [\<lparr>Min_r = FromUint 1, Max_r = FromUint 10\<rparr>]
   \<and> coalesce (coalesce [\<lparr>Min_r = FromUint 1, Max_r = FromUint 5\<rparr>, \<lparr>Min_r = FromUint 6, Max_r = FromUint 10\<rparr>])
     = coalesce [\<lparr>Min_r = FromUint 1, Max_r = FromUint 5\<rparr>, \<lparr>Min_r = FromUint 6, Max_r = FromUint 10\<rparr>]"
proof -
  have v: "Validate [\<lparr>Min_r = FromUint 6, Max_r = FromUint 10\<rparr>, \<lparr>Min_r = FromUint 1, Max_r = FromUint 5\<rparr>]
     = ([\<lparr>Min_r = FromUint 1, Max_r = FromUint 5\<rparr>, \<lparr>Min_r = FromUint 6, Max_r = FromUint 10\<rparr>], None)"
    by code_simp
  have c: "coalesce [\<lparr>Min_r = FromUint 1, Max_r = FromUint 5\<rparr>, \<lparr>Min_r = FromUint 6, Max_r = FromUint 10\<rparr>]
     = [\<lparr>Min_r = FromUint 1, Max_r = FromUint 10\<rparr>]"
    by code_simp
  from v c C6_coalesce_idempotent [OF v] show ?thesis by blast
qed

section \<open>Sorting and validation\<close>

lemma Number_Less_key: "Number_Less n m = (Number_key n < Number_key m)"
proof -
  define a where "a = uint (Value n)"
  define b where "b = uint (Value m)"
  have bounds: "0 \<le> a" "a < 2 ^ 64" "0 \<le> b" "b < 2 ^ 64"
    using uint_lt2p [of "Value n"] uint_lt2p [of "Value m"] by (simp_all add: a_def b_def)
  have less: "(Value n < Value m) = (a < b)" "(Value m < Value n) = (b < a)"
    by (simp_all add: word_less_def a_def b_def)
  show ?thesis
    unfolding Number_Less_def Number_key_def less a_def [symmetric] b_def [symmetric]
    using bounds by (cases "Kind n"; cases "Kind m") auto
qed

lemma YangRange_Less_key:
  "YangRange_Less a b =
     (Number_key (Min_r a) < Number_key (Min_r b)
      \<or> Number_key (Min_r a) = Number_key (Min_r b) \<and> Number_key (Max_r a) < Number_key (Max_r b))"
  by (auto simp: YangRange_Less_def Number_Less_key)

lemma mset_insert_left: "mset (insert_left x ys) = add_mset x (mset ys)"
  by (induction ys) auto

lemma set_insert_left: "set (insert_left x ys) = insert x (set ys)"
  by (induction ys) auto

lemma mset_foldl_insert_left:
  "mset (foldl (\<lambda>front x. insert_left x front) front r) = mset front + mset r"
  by (induction r arbitrary: front) (auto simp: mset_insert_left)

lemma mset_sort_Sort: "mset (sort_Sort r) = mset r"
  by (simp add: sort_Sort_def mset_foldl_insert_left)

lemma insert_left_descending:
  "sorted_wrt (\<lambda>a b. \<not> YangRange_Less a b) front
   \<Longrightarrow> sorted_wrt (\<lambda>a b. \<not> YangRange_Less a b) (insert_left x front)"
proof (induction front)
  case Nil
  show ?case by simp
next
  case (Cons y ys)
  show ?case
  proof (cases "YangRange_Less x y")
    case True
    then have "\<not> YangRange_Less y x" by (auto simp: YangRange_Less_key)
    then show ?thesis using Cons True by (auto simp: set_insert_left)
  next
    case False
    have "\<not> YangRange_Less x z" if "z \<in> set ys" for z
    proof -
      have "\<not> YangRange_Less y z" using Cons.prems that by auto
      with False show ?thesis by (auto simp: YangRange_Less_key)
    qed
    then show ?thesis using Cons.prems False by auto
  qed
qed

lemma foldl_insert_left_descending:
  "sorted_wrt (\<lambda>a b. \<not> YangRange_Less a b) front
   \<Longrightarrow> sorted_wrt (\<lambda>a b. \<not> YangRange_Less a b) (foldl (\<lambda>front x. insert_left x front) front r)"
  by (induction r arbitrary: front) (auto intro: insert_left_descending)

lemma in_order_sort_Sort: "in_order (sort_Sort r)"
  using foldl_insert_left_descending [of "[]" r]
  by (simp add: in_order_def sort_Sort_def sorted_wrt_rev)

text \<open>What \<open>Validate\<close> checks: the first range in order, and every later range against it.\<close>

lemma Validate_loop_Some_iff:
  "(Validate_loop p ns = Some e) =
     (e = ErrOverlappingRanges \<and> (\<exists>n\<in>set ns. Number_Less (Min_r n) (Max_r p)))"
  by (induction ns) auto

lemma Validate_overlap_iff:
  "(snd (Validate r) = Some ErrOverlappingRanges) =
     (case sort_Sort r of
        [] \<Rightarrow> False
      | p # ns \<Rightarrow> YRange_Valid p \<and> (\<exists>n\<in>set ns. Number_Less (Min_r n) (Max_r p)))"
  by (auto simp: Validate_def Let_def Validate_loop_Some_iff split: list.splits)

text \<open>
  C9, as amended. When \<open>Validate\<close> returns an error, its receiver holds the same ranges
  as before the call, arranged in order of (low, high). Both facts are facts of every
  sorting procedure, stable or not: the proof uses of \<open>sort_Sort\<close> only that it returns
  its argument's elements (\<open>mset_sort_Sort\<close>) in order (\<open>in_order_sort_Sort\<close>).
\<close>

theorem C9_Validate_sorts_in_place:
  "snd (Validate r) = Some e \<Longrightarrow>
     mset (fst (Validate r)) = mset r \<and> in_order (fst (Validate r))"
  by (simp add: Validate_def Let_def mset_sort_Sort in_order_sort_Sort)

text \<open>
  \<open>Validate\<close> on \<open>5..15|1..10\<close> returns the overlap error and leaves \<open>1..10|5..15\<close> in the
  receiver. (Two ranges with different lows: every version of the library's sort gives
  this order.)
\<close>

theorem C9_counterexample:
  "Validate [\<lparr>Min_r = FromUint 5, Max_r = FromUint 15\<rparr>, \<lparr>Min_r = FromUint 1, Max_r = FromUint 10\<rparr>]
     = ([\<lparr>Min_r = FromUint 1, Max_r = FromUint 10\<rparr>, \<lparr>Min_r = FromUint 5, Max_r = FromUint 15\<rparr>],
        Some ErrOverlappingRanges)
   \<and> [\<lparr>Min_r = FromUint 1, Max_r = FromUint 10\<rparr>, \<lparr>Min_r = FromUint 5, Max_r = FromUint 15\<rparr>]
     \<noteq> [\<lparr>Min_r = FromUint 5, Max_r = FromUint 15\<rparr>, \<lparr>Min_r = FromUint 1, Max_r = FromUint 10\<rparr>]"
  by code_simp

theorem C9_Validate_sorts_in_place_witness:
  "snd (Validate [\<lparr>Min_r = FromUint 5, Max_r = FromUint 15\<rparr>, \<lparr>Min_r = FromUint 1, Max_r = FromUint 10\<rparr>])
     = Some ErrOverlappingRanges
   \<and> mset (fst (Validate [\<lparr>Min_r = FromUint 5, Max_r = FromUint 15\<rparr>, \<lparr>Min_r = FromUint 1, Max_r = FromUint 10\<rparr>]))
     = mset [\<lparr>Min_r = FromUint 5, Max_r = FromUint 15\<rparr>, \<lparr>Min_r = FromUint 1, Max_r = FromUint 10\<rparr>]
   \<and> in_order (fst (Validate [\<lparr>Min_r = FromUint 5, Max_r = FromUint 15\<rparr>, \<lparr>Min_r = FromUint 1, Max_r = FromUint 10\<rparr>]))
   \<and> \<not> in_order [\<lparr>Min_r = FromUint 5, Max_r = FromUint 15\<rparr>, \<lparr>Min_r = FromUint 1, Max_r = FromUint 10\<rparr>]"
proof -
  have v: "snd (Validate [\<lparr>Min_r = FromUint 5, Max_r = FromUint 15\<rparr>, \<lparr>Min_r = FromUint 1, Max_r = FromUint 10\<rparr>])
     = Some ErrOverlappingRanges"
    by code_simp
  have n: "\<not> in_order [\<lparr>Min_r = FromUint 5, Max_r = FromUint 15\<rparr>, \<lparr>Min_r = FromUint 1, Max_r = FromUint 10\<rparr>]"
    by code_simp
  from v n C9_Validate_sorts_in_place [OF v] show ?thesis by blast
qed

text \<open>
  C2. The loop of \<open>Validate\<close> compares every later range with the first one only. On
  \<open>1..3|5..10|7..12\<close>, which is sorted, the low 7 of the third range is less than the
  high 10 of the second, and \<open>Validate\<close> returns no error; \<open>ParseRanges\<close> then merges the
  two overlapping ranges. An overlap with the first range is reported:
  \<open>1..10|5..15\<close> fails.
\<close>

theorem C2_later_overlap_accepted:
  "Validate [\<lparr>Min_r = FromUint 1, Max_r = FromUint 3\<rparr>, \<lparr>Min_r = FromUint 5, Max_r = FromUint 10\<rparr>,
             \<lparr>Min_r = FromUint 7, Max_r = FromUint 12\<rparr>]
     = ([\<lparr>Min_r = FromUint 1, Max_r = FromUint 3\<rparr>, \<lparr>Min_r = FromUint 5, Max_r = FromUint 10\<rparr>,
         \<lparr>Min_r = FromUint 7, Max_r = FromUint 12\<rparr>], None)
   \<and> Number_Less (FromUint 7) (FromUint 10)
   \<and> ParseRanges ''1..3|5..10|7..12''
     = Inr [\<lparr>Min_r = FromUint 1, Max_r = FromUint 3\<rparr>, \<lparr>Min_r = FromUint 5, Max_r = FromUint 12\<rparr>]
   \<and> ParseRanges ''1..10|5..15'' = Inl ErrOverlappingRanges"
  by code_simp

section \<open>Parsing range expressions\<close>

lemma Number_Less_irrefl: "\<not> Number_Less n n"
  by (simp add: Number_Less_def)

text \<open>
  C7. \<open>1..5|6..10\<close> parses to the single range \<open>1..10\<close> and \<open>1..5|7..10\<close> to the two ranges
  \<open>1..5\<close> and \<open>7..10\<close>. In general two ranges of which the first's high plus one is the
  second's low coalesce into one range, whose high is the greater of the two highs.
\<close>

theorem C7_coalesce_examples:
  "ParseRanges ''1..5|6..10'' = Inr [\<lparr>Min_r = FromUint 1, Max_r = FromUint 10\<rparr>]
   \<and> ParseRanges ''1..5|7..10''
     = Inr [\<lparr>Min_r = FromUint 1, Max_r = FromUint 5\<rparr>, \<lparr>Min_r = FromUint 7, Max_r = FromUint 10\<rparr>]
   \<and> (Number_add (Max_r a) 1 = Min_r b \<longrightarrow>
        coalesce [a, b] = [if Number_Less (Max_r a) (Max_r b) then a\<lparr>Max_r := Max_r b\<rparr> else a])"
proof -
  have e1: "ParseRanges ''1..5|6..10'' = Inr [\<lparr>Min_r = FromUint 1, Max_r = FromUint 10\<rparr>]"
    by code_simp
  have e2: "ParseRanges ''1..5|7..10''
     = Inr [\<lparr>Min_r = FromUint 1, Max_r = FromUint 5\<rparr>, \<lparr>Min_r = FromUint 7, Max_r = FromUint 10\<rparr>]"
    by code_simp
  have g: "coalesce [a, b] = [if Number_Less (Max_r a) (Max_r b) then a\<lparr>Max_r := Max_r b\<rparr> else a]"
    if "Number_add (Max_r a) 1 = Min_r b"
    using that by (simp add: Number_Less_irrefl)
  from e1 e2 g show ?thesis by blast
qed

theorem C7_coalesce_examples_witness:
  "Number_add (Max_r \<lparr>Min_r = FromUint 1, Max_r = FromUint 5\<rparr>) 1
     = Min_r \<lparr>Min_r = FromUint 6, Max_r = FromUint 10\<rparr>
   \<and> coalesce [\<lparr>Min_r = FromUint 1, Max_r = FromUint 5\<rparr>, \<lparr>Min_r = FromUint 6, Max_r = FromUint 10\<rparr>]
     = [\<lparr>Min_r = FromUint 1, Max_r = FromUint 10\<rparr>]"
proof -
  have h: "Number_add (Max_r \<lparr>Min_r = FromUint 1, Max_r = FromUint 5\<rparr>) 1
     = Min_r \<lparr>Min_r = FromUint 6, Max_r = FromUint 10\<rparr>"
    by code_simp
  have l: "Number_Less (Max_r \<lparr>Min_r = FromUint 1, Max_r = FromUint 5\<rparr>)
     (Max_r \<lparr>Min_r = FromUint 6, Max_r = FromUint 10\<rparr>)"
    by code_simp
  from C7_coalesce_examples
    [of "\<lparr>Min_r = FromUint 1, Max_r = FromUint 5\<rparr>" "\<lparr>Min_r = FromUint 6, Max_r = FromUint 10\<rparr>"] h
  have "coalesce [\<lparr>Min_r = FromUint 1, Max_r = FromUint 5\<rparr>, \<lparr>Min_r = FromUint 6, Max_r = FromUint 10\<rparr>]
     = [if Number_Less (Max_r \<lparr>Min_r = FromUint 1, Max_r = FromUint 5\<rparr>)
             (Max_r \<lparr>Min_r = FromUint 6, Max_r = FromUint 10\<rparr>)
        then \<lparr>Min_r = FromUint 1, Max_r = FromUint 5\<rparr>\<lparr>Max_r := Max_r \<lparr>Min_r = FromUint 6, Max_r = FromUint 10\<rparr>\<rparr>
        else \<lparr>Min_r = FromUint 1, Max_r = FromUint 5\<rparr>]"
    by blast
  with l h show ?thesis by simp
qed

section \<open>Trimming\<close>

declare TrimLeft.simps [simp del] TrimRight.simps [simp del]

lemma find_space_seqs_nonempty:
  "find P space_seqs = Some p \<Longrightarrow> p \<noteq> []"
  by (auto simp: find_Some_iff space_seqs_def nth_Cons' split: if_splits)

lemma space_len_TrimLeft: "space_len (TrimLeft s) = 0"
  by (induction s rule: TrimLeft.induct) (subst TrimLeft.simps, auto)

lemma last_space_len_TrimRight: "last_space_len (TrimRight s) = 0"
  by (induction s rule: TrimRight.induct) (subst TrimRight.simps, auto)

lemma prefix_TrimRight: "prefix (TrimRight s) s"
proof (induction s rule: TrimRight.induct)
  case (1 s)
  show ?case
  proof (cases "last_space_len s = 0")
    case True
    then show ?thesis by (subst TrimRight.simps) simp
  next
    case False
    have "prefix (TrimRight (take (length s - last_space_len s) s)) (take (length s - last_space_len s) s)"
      using 1 False by simp
    then have "prefix (TrimRight (take (length s - last_space_len s) s)) s"
      using take_is_prefix prefix_order.order_trans by blast
    then show ?thesis using False by (subst TrimRight.simps) simp
  qed
qed

lemma space_len_prefix: "space_len s = 0 \<Longrightarrow> prefix t s \<Longrightarrow> space_len t = 0"
proof (rule ccontr)
  assume s0: "space_len s = 0" and ts: "prefix t s" and "space_len t \<noteq> 0"
  then obtain p where p: "find (\<lambda>p. prefix p t) space_seqs = Some p"
    by (auto simp: space_len_def split: option.splits)
  then have "p \<in> set space_seqs" "prefix p t"
    by (auto simp: find_Some_iff)
  with ts have "\<exists>q\<in>set space_seqs. prefix q s"
    using prefix_order.order_trans by blast
  then obtain q where q: "find (\<lambda>p. prefix p s) space_seqs = Some q"
    by (cases "find (\<lambda>p. prefix p s) space_seqs") (auto simp: find_None_iff)
  with find_space_seqs_nonempty [OF q] s0 show False
    by (simp add: space_len_def)
qed

lemma TrimLeft_fixed: "space_len s = 0 \<Longrightarrow> TrimLeft s = s"
  by (subst TrimLeft.simps) simp

lemma TrimRight_fixed: "last_space_len s = 0 \<Longrightarrow> TrimRight s = s"
  by (subst TrimRight.simps) simp

lemma TrimSpace_idem: "TrimSpace (TrimSpace s) = TrimSpace s"
proof -
  have "space_len (TrimRight (TrimLeft s)) = 0"
    using space_len_prefix [OF space_len_TrimLeft prefix_TrimRight] .
  then have "TrimLeft (TrimRight (TrimLeft s)) = TrimRight (TrimLeft s)"
    by (rule TrimLeft_fixed)
  then show ?thesis
    by (simp add: TrimSpace_def TrimRight_fixed last_space_len_TrimRight)
qed

lemma space_len_seq: "p \<in> set space_seqs \<Longrightarrow> space_len (p @ t) = length p"
  apply (unfold space_seqs_def)
  apply (simp only: list.set insert_iff empty_iff)
  apply (elim disjE FalseE)
  apply (hypsubst, simp add: space_len_def space_seqs_def)+
  done

lemma TrimLeft_seq: "p \<in> set space_seqs \<Longrightarrow> TrimLeft (p @ t) = TrimLeft t"
proof -
  assume p: "p \<in> set space_seqs"
  then have "p \<noteq> []" by (auto simp: space_seqs_def)
  with space_len_seq [OF p, of t] show ?thesis
    by (subst TrimLeft.simps) simp
qed

lemma TrimLeft_concat: "set ws \<subseteq> set space_seqs \<Longrightarrow> TrimLeft (concat ws @ t) = TrimLeft t"
  by (induction ws) (auto simp: TrimLeft_seq)

lemma space_len_Nil: "space_len [] = 0"
  by (simp add: space_len_def space_seqs_def)

lemma last_space_len_Nil: "last_space_len [] = 0"
  by (simp add: last_space_len_def space_seqs_def)

lemma TrimSpace_concat: "set ws \<subseteq> set space_seqs \<Longrightarrow> TrimSpace (concat ws) = []"
  using TrimLeft_concat [of ws "[]"]
  by (simp add: TrimSpace_def TrimLeft_fixed TrimRight_fixed space_len_Nil last_space_len_Nil)

lemma ParseNumber_TrimSpace: "ParseNumber (TrimSpace s) = ParseNumber s"
  by (simp add: ParseNumber_def TrimSpace_idem)

text \<open>
  C10. \<open>ParseNumber\<close> gives on every string the result it gives on the trimmed string
  (trimming is the first thing it does, and trimming twice is trimming once); the
  padded literal \<open>" 5 "\<close> parses to 5; and a string made of white space only, that is
  a concatenation of encoded white-space code points, fails with the empty-input error.
\<close>

theorem C10_ParseNumber_trims:
  "ParseNumber s = ParseNumber (TrimSpace s)
   \<and> TrimSpace '' 5 '' = ''5''
   \<and> ParseNumber '' 5 '' = Inr (FromUint 5)
   \<and> (set ws \<subseteq> set space_seqs \<longrightarrow> ParseNumber (concat ws) = Inl ErrEmptyString)"
proof -
  have t: "TrimSpace '' 5 '' = ''5''" by code_simp
  have f: "ParseNumber '' 5 '' = Inr (FromUint 5)" by code_simp
  have w: "ParseNumber (concat ws) = Inl ErrEmptyString" if "set ws \<subseteq> set space_seqs"
    using TrimSpace_concat [OF that] by (simp add: ParseNumber_def)
  from t f w ParseNumber_TrimSpace [of s] show ?thesis by simp
qed

text \<open>
  The theorem at a string of a space, a tab and a no-break space, and at \<open>-7\<close> between a
  tab and a line feed.
\<close>

theorem C10_ParseNumber_trims_witness:
  "set ['' '', [CHR 0x09], [CHR 0xC2, CHR 0xA0]] \<subseteq> set space_seqs
   \<and> ParseNumber [CHR 0x20, CHR 0x09, CHR 0xC2, CHR 0xA0] = Inl ErrEmptyString
   \<and> ParseNumber [CHR 0x09, CHR ''-'', CHR ''7'', CHR 0x0A] = ParseNumber ''-7''"
proof -
  have m: "set ['' '', [CHR 0x09], [CHR 0xC2, CHR 0xA0]] \<subseteq> set space_seqs"
    by (simp add: space_seqs_def)
  have t: "TrimSpace [CHR 0x09, CHR ''-'', CHR ''7'', CHR 0x0A] = ''-7''"
    by code_simp
  from C10_ParseNumber_trims [of "[CHR 0x09, CHR ''-'', CHR ''7'', CHR 0x0A]"
      "['' '', [CHR 0x09], [CHR 0xC2, CHR 0xA0]]"] m t
  show ?thesis by simp
qed

section \<open>Ordering and equality of Numbers\<close>

text \<open>
  \<open>Number.Less\<close> compares positions on the line, so of \<open>n < m\<close>, same position and
  \<open>m < n\<close> exactly one holds.
\<close>

lemma Number_Less_trichotomy_key:
  "(Number_Less n m \<and> Number_key n \<noteq> Number_key m \<and> \<not> Number_Less m n)
   \<or> (\<not> Number_Less n m \<and> Number_key n = Number_key m \<and> \<not> Number_Less m n)
   \<or> (\<not> Number_Less n m \<and> Number_key n \<noteq> Number_key m \<and> Number_Less m n)"
  by (auto simp: Number_Less_key)

lemma Number_key_eq_iff: "integral n \<Longrightarrow> integral m \<Longrightarrow> (Number_key n = Number_key m) = (n = m)"
proof -
  assume i: "integral n" "integral m"
  define a where "a = uint (Value n)"
  define b where "b = uint (Value m)"
  have bounds: "0 \<le> a" "a < 2 ^ 64" "0 \<le> b" "b < 2 ^ 64"
    using uint_lt2p [of "Value n"] uint_lt2p [of "Value m"] by (simp_all add: a_def b_def)
  have eq: "(Value n = Value m) = (a = b)"
    by (simp add: a_def b_def word_uint_eq_iff)
  have zero: "Kind n = MinNumber \<or> Kind n = MaxNumber \<Longrightarrow> a = 0"
    "Kind m = MinNumber \<or> Kind m = MaxNumber \<Longrightarrow> b = 0"
    using i by (auto simp: integral_def a_def b_def)
  have "(n = m) = (Kind n = Kind m \<and> Value n = Value m)"
    using i by (cases n; cases m) (auto simp: integral_def)
  also have "\<dots> = (Number_key n = Number_key m)"
    unfolding Number_key_def eq a_def [symmetric] b_def [symmetric]
    using bounds zero by (cases "Kind n"; cases "Kind m") auto
  finally show ?thesis by simp
qed

lemma integral_trichotomy:
  "integral n \<Longrightarrow> integral m \<Longrightarrow>
     (Number_Less n m \<and> \<not> Number_Equal n m \<and> \<not> Number_Less m n)
     \<or> (\<not> Number_Less n m \<and> Number_Equal n m \<and> \<not> Number_Less m n)
     \<or> (\<not> Number_Less n m \<and> \<not> Number_Equal n m \<and> Number_Less m n)"
  using Number_Less_trichotomy_key [of n m] Number_key_eq_iff [of n m]
  by (simp add: Number_Equal_def)

lemma integral_FromInt: "integral (FromInt i)"
  by (simp add: integral_def FromInt_def)

lemma integral_FromUint: "integral (FromUint i)"
  by (simp add: integral_def FromUint_def)

lemma sentinels_extreme: "\<not> Number_Less n minNumber \<and> \<not> Number_Less maxNumber n"
  by (simp add: Number_Less_def minNumber_def maxNumber_def)

lemma ParseNumber_1_25:
  "ParseNumber ''1.25'' = Inr \<lparr>Kind = Positive, Value = 1, Decimal = 5 / 4\<rparr>"
  by code_simp

lemma ParseNumber_1_5:
  "ParseNumber ''1.5'' = Inr \<lparr>Kind = Positive, Value = 1, Decimal = 3 / 2\<rparr>"
  by code_simp

text \<open>
  A consequence for range expressions: \<open>1.7..1.2\<close> is accepted, as neither bound is
  less than the other.
\<close>

lemma ParseRanges_1_7_to_1_2:
  "ParseRanges ''1.7..1.2''
     = Inr [\<lparr>Min_r = \<lparr>Kind = Positive, Value = 1,
                         Decimal = 7656119366529843 / 4503599627370496\<rparr>,
             Max_r = \<lparr>Kind = Positive, Value = 1,
                         Decimal = 5404319552844595 / 4503599627370496\<rparr>\<rparr>]"
  by code_simp

text \<open>
  C3. The literals \<open>1.25\<close> and \<open>1.5\<close> parse to Numbers of the same magnitude 1 and of
  different \<open>Decimal\<close>. \<open>Number.Less\<close> reads the discriminant and the magnitude only,
  \<open>Number.Equal\<close> compares the \<open>Decimal\<close> too: neither Number is less than the other, and
  they are not equal. (On Numbers without a decimal component exactly one of the three
  holds, \<open>integral_trichotomy\<close>, and no Number is below the minimum sentinel or above
  the maximum sentinel, \<open>sentinels_extreme\<close>.)
\<close>

theorem C3_decimals_unordered:
  "ParseNumber ''1.25'' = Inr \<lparr>Kind = Positive, Value = 1, Decimal = 5 / 4\<rparr>
   \<and> ParseNumber ''1.5'' = Inr \<lparr>Kind = Positive, Value = 1, Decimal = 3 / 2\<rparr>
   \<and> \<not> Number_Less \<lparr>Kind = Positive, Value = 1, Decimal = 5 / 4\<rparr>
          \<lparr>Kind = Positive, Value = 1, Decimal = 3 / 2\<rparr>
   \<and> \<not> Number_Equal \<lparr>Kind = Positive, Value = 1, Decimal = 5 / 4\<rparr>
          \<lparr>Kind = Positive, Value = 1, Decimal = 3 / 2\<rparr>
   \<and> \<not> Number_Less \<lparr>Kind = Positive, Value = 1, Decimal = 3 / 2\<rparr>
          \<lparr>Kind = Positive, Value = 1, Decimal = 5 / 4\<rparr>"
  by (simp add: ParseNumber_1_25 ParseNumber_1_5 Number_Less_def Number_Equal_def)

section \<open>Rendering\<close>

text \<open>
  Rendering and parsing back. \<open>strconv.FormatUint\<close> writes the decimal digits of the
  magnitude, which \<open>strconv.ParseUint\<close> reads back in base 10 (the digits of 0 in base
  8), so every Number without a decimal component parses back from its rendering.
\<close>

declare digits10.simps [simp del]

lemma ParseUint_loop_append:
  "ParseUint_loop b acc (xs @ ys) =
     (case ParseUint_loop b acc xs of Inl e \<Rightarrow> Inl e | Inr a \<Rightarrow> ParseUint_loop b a ys)"
  by (induction xs arbitrary: acc) (auto split: option.splits)

lemma digit_char_cases:
  "0 \<le> d \<Longrightarrow> d \<le> 9 \<Longrightarrow> digit_char d \<in> set ''0123456789''"
proof -
  assume "0 \<le> d" "d \<le> 9"
  then have "d = 0 \<or> d = 1 \<or> d = 2 \<or> d = 3 \<or> d = 4 \<or> d = 5 \<or> d = 6 \<or> d = 7 \<or> d = 8 \<or> d = 9"
    by arith
  then show ?thesis
    by (elim disjE) (simp_all add: digit_char_def char_of_def)
qed

lemma digit_val_digit_char: "0 \<le> d \<Longrightarrow> d \<le> 9 \<Longrightarrow> digit_val (digit_char d) = Some d"
proof -
  assume "0 \<le> d" "d \<le> 9"
  then have "d = 0 \<or> d = 1 \<or> d = 2 \<or> d = 3 \<or> d = 4 \<or> d = 5 \<or> d = 6 \<or> d = 7 \<or> d = 8 \<or> d = 9"
    by arith
  then show ?thesis
    by (elim disjE) (simp_all add: digit_char_def digit_val_def)
qed

lemma digits10_nonempty: "digits10 n \<noteq> []"
  by (subst digits10.simps) simp

lemma ParseUint_loop_digits10:
  "0 \<le> n \<Longrightarrow> 0 \<le> acc \<Longrightarrow> acc * 10 ^ length (digits10 n) + n < 2 ^ 64
   \<Longrightarrow> ParseUint_loop 10 acc (digits10 n) = Inr (acc * 10 ^ length (digits10 n) + n)"
proof (induction n arbitrary: acc rule: digits10.induct)
  case (1 n)
  show ?case
  proof (cases "n < 10")
    case True
    then have d: "digits10 n = [digit_char n]"
      by (subst digits10.simps) simp
    have "digit_val (digit_char n) = Some n"
      using True "1.prems" by (simp add: digit_val_digit_char)
    then show ?thesis
      using d True "1.prems" by simp
  next
    case False
    define m where "m = n div 10"
    define r where "r = n mod 10"
    have n: "n = m * 10 + r" and r: "0 \<le> r" "r \<le> 9" and m: "0 \<le> m"
      using "1.prems" by (auto simp: m_def r_def)
    have d: "digits10 n = digits10 m @ [digit_char r]"
      using False by (subst digits10.simps) (simp add: m_def r_def)
    have len: "length (digits10 n) = Suc (length (digits10 m))"
      using d by simp
    define a where "a = acc * 10 ^ length (digits10 m) + m"
    have a0: "0 \<le> a"
      using "1.prems" m by (simp add: a_def)
    have eq: "a * 10 + r = acc * 10 ^ length (digits10 n) + n"
      by (simp only: a_def len power_Suc) (simp add: n algebra_simps)
    then have bound: "a * 10 + r < 2 ^ 64"
      using "1.prems" by simp
    then have "a < 2 ^ 64"
      using a0 r by arith
    then have "ParseUint_loop 10 acc (digits10 m) = Inr a"
      using "1.IH" [OF False, of acc] m "1.prems" by (simp add: a_def m_def)
    moreover have "ParseUint_loop 10 a [digit_char r] = Inr (a * 10 + r)"
      using digit_val_digit_char [OF r] r bound by simp
    ultimately show ?thesis
      using d eq by (simp add: ParseUint_loop_append)
  qed
qed

lemma digits10_hd:
  "0 < n \<Longrightarrow> \<exists>d cs. digits10 n = digit_char d # cs \<and> 1 \<le> d \<and> d \<le> 9"
proof (induction n rule: digits10.induct)
  case (1 n)
  show ?case
  proof (cases "n < 10")
    case True
    then have "digits10 n = [digit_char n]"
      by (subst digits10.simps) simp
    then show ?thesis using True "1.prems" by auto
  next
    case False
    then have "0 < n div 10" using "1.prems" by simp
    from "1.IH" [OF False this] obtain d cs
      where "digits10 (n div 10) = digit_char d # cs" "1 \<le> d" "d \<le> 9" by blast
    moreover have "digits10 n = digits10 (n div 10) @ [digit_char (n mod 10)]"
      using False by (subst digits10.simps) simp
    ultimately show ?thesis by auto
  qed
qed

lemma digits10_set: "0 \<le> n \<Longrightarrow> set (digits10 n) \<subseteq> set ''0123456789''"
proof (induction n rule: digits10.induct)
  case (1 n)
  show ?case
  proof (cases "n < 10")
    case True
    then have "digits10 n = [digit_char n]"
      by (subst digits10.simps) simp
    then show ?thesis
      using digit_char_cases [of n] True "1.prems" by simp
  next
    case False
    have d: "digits10 n = digits10 (n div 10) @ [digit_char (n mod 10)]"
      using False by (subst digits10.simps) simp
    have "set (digits10 (n div 10)) \<subseteq> set ''0123456789''"
      using "1.IH" [OF False] "1.prems" by simp
    moreover have "digit_char (n mod 10) \<in> set ''0123456789''"
      using digit_char_cases [of "n mod 10"] by simp
    ultimately show ?thesis
      unfolding d by simp
  qed
qed

lemma space_len_digit: "c \<in> set ''-0123456789'' \<Longrightarrow> space_len (c # cs) = 0"
  apply (simp only: list.set insert_iff empty_iff)
  apply (elim disjE FalseE)
  apply (hypsubst, simp add: space_len_def space_seqs_def)+
  done

lemma last_space_len_digit: "c \<in> set ''0123456789'' \<Longrightarrow> last_space_len (cs @ [c]) = 0"
  apply (simp only: list.set insert_iff empty_iff)
  apply (elim disjE FalseE)
  apply (hypsubst, simp add: last_space_len_def space_seqs_def suffix_to_prefix)+
  done

lemma TrimSpace_digits:
  "s \<noteq> [] \<Longrightarrow> hd s \<in> set ''-0123456789'' \<Longrightarrow> last s \<in> set ''0123456789'' \<Longrightarrow> TrimSpace s = s"
proof -
  assume s: "s \<noteq> []" and h: "hd s \<in> set ''-0123456789''" and l: "last s \<in> set ''0123456789''"
  have "space_len s = 0"
    using space_len_digit [OF h, of "tl s"] s by simp
  moreover have "last_space_len s = 0"
    using last_space_len_digit [OF l, of "butlast s"] s by simp
  ultimately show ?thesis
    by (simp add: TrimSpace_def TrimLeft_fixed TrimRight_fixed)
qed

lemma Split_loop_no_sep: "d \<notin> set s \<Longrightarrow> Split_loop d ds cur s = [rev cur @ s]"
  by (induction s arbitrary: cur) auto

lemma Split_no_dot: "CHR ''.'' \<notin> set s \<Longrightarrow> Split s ''.'' = [s]"
  by (simp add: Split_loop_no_sep)

lemma digits10_0: "digits10 0 = ''0''"
  by (subst digits10.simps) (simp add: digit_char_def char_of_def)

lemma digit_char_not_0: "1 \<le> d \<Longrightarrow> d \<le> 9 \<Longrightarrow> digit_char d \<noteq> CHR ''0''"
proof -
  assume "1 \<le> d" "d \<le> 9"
  then have "d = 1 \<or> d = 2 \<or> d = 3 \<or> d = 4 \<or> d = 5 \<or> d = 6 \<or> d = 7 \<or> d = 8 \<or> d = 9"
    by arith
  then show ?thesis
    by (elim disjE) (simp_all add: digit_char_def char_of_def)
qed

lemma ParseUint_digits10:
  "0 \<le> n \<Longrightarrow> n < 2 ^ 64 \<Longrightarrow> ParseUint (digits10 n) = Inr (word_of_int n)"
proof (cases "n = 0")
  case True
  then show ?thesis by (simp add: digits10_0 ParseUint_def)
next
  case False
  assume n: "0 \<le> n" "n < 2 ^ 64"
  with False have "0 < n" by simp
  from digits10_hd [OF this] obtain d cs
    where d: "digits10 n = digit_char d # cs" "1 \<le> d" "d \<le> 9" by blast
  have "ParseUint_loop 10 0 (digits10 n) = Inr n"
    using ParseUint_loop_digits10 [of n 0] n by simp
  then show ?thesis
    using d digit_char_not_0 [of d] by (simp add: ParseUint_def)
qed

lemma digits10_shape:
  "0 \<le> n \<Longrightarrow> digits10 n \<noteq> [] \<and> hd (digits10 n) \<in> set ''0123456789''
     \<and> last (digits10 n) \<in> set ''0123456789'' \<and> CHR ''.'' \<notin> set (digits10 n)"
proof -
  assume n: "0 \<le> n"
  have ne: "digits10 n \<noteq> []" by (rule digits10_nonempty)
  have h: "hd (digits10 n) \<in> set ''0123456789''"
    by (rule subsetD [OF digits10_set [OF n] hd_in_set [OF ne]])
  have l: "last (digits10 n) \<in> set ''0123456789''"
    by (rule subsetD [OF digits10_set [OF n] last_in_set [OF ne]])
  have d: "CHR ''.'' \<notin> set (digits10 n)"
  proof
    assume "CHR ''.'' \<in> set (digits10 n)"
    then have "CHR ''.'' \<in> set ''0123456789''"
      by (rule subsetD [OF digits10_set [OF n]])
    then show False by simp
  qed
  from ne h l d show ?thesis by simp
qed

lemma ParseNumber_digits10:
  "0 \<le> n \<Longrightarrow> n < 2 ^ 64
   \<Longrightarrow> ParseNumber (digits10 n) = Inr \<lparr>Kind = Positive, Value = word_of_int n, Decimal = 0\<rparr>"
proof -
  assume n: "0 \<le> n" "n < 2 ^ 64"
  define s where "s = digits10 n"
  have sh: "s \<noteq> []" "hd s \<in> set ''0123456789''" "last s \<in> set ''0123456789''"
    "CHR ''.'' \<notin> set s"
    using digits10_shape [OF n(1)] by (simp_all add: s_def)
  have t: "TrimSpace s = s"
    using sh by (intro TrimSpace_digits) auto
  obtain c cs where c: "s = c # cs" using sh(1) by (cases s) auto
  have cd: "c \<in> set ''0123456789''" using sh(2) c by simp
  have no: "s \<noteq> ''max''" "s \<noteq> ''min''" "s \<noteq> ''+''" "s \<noteq> ''-''"
    "hd s \<noteq> CHR ''+''" "hd s \<noteq> CHR ''-''"
    using cd c by auto
  have sp: "Split s ''.'' = [s]" using sh(4) by (rule Split_no_dot)
  have pu: "ParseUint s = Inr (word_of_int n)"
    using ParseUint_digits10 [OF n] by (simp add: s_def)
  have "ParseNumber s = Inr \<lparr>Kind = Positive, Value = word_of_int n, Decimal = 0\<rparr>"
    unfolding ParseNumber_def t Let_def by (simp add: no sh(1) sp pu del: Split.simps)
  then show ?thesis by (simp add: s_def)
qed

lemma ParseNumber_minus_digits10:
  "0 \<le> n \<Longrightarrow> n < 2 ^ 64
   \<Longrightarrow> ParseNumber (CHR ''-'' # digits10 n)
       = Inr \<lparr>Kind = Negative, Value = word_of_int n, Decimal = 0\<rparr>"
proof -
  assume n: "0 \<le> n" "n < 2 ^ 64"
  define s where "s = digits10 n"
  have sh: "s \<noteq> []" "hd s \<in> set ''0123456789''" "last s \<in> set ''0123456789''"
    "CHR ''.'' \<notin> set s"
    using digits10_shape [OF n(1)] by (simp_all add: s_def)
  have t: "TrimSpace (CHR ''-'' # s) = CHR ''-'' # s"
    using sh by (intro TrimSpace_digits) auto
  have no: "CHR ''-'' # s \<noteq> ''max''" "CHR ''-'' # s \<noteq> ''min''" "CHR ''-'' # s \<noteq> ''+''"
    "CHR ''-'' # s \<noteq> ''-''"
    using sh(1) by auto
  have sp: "Split s ''.'' = [s]" using sh(4) by (rule Split_no_dot)
  have pu: "ParseUint s = Inr (word_of_int n)"
    using ParseUint_digits10 [OF n] by (simp add: s_def)
  have "ParseNumber (CHR ''-'' # s) = Inr \<lparr>Kind = Negative, Value = word_of_int n, Decimal = 0\<rparr>"
    unfolding ParseNumber_def t Let_def by (simp add: no sh(1) sp pu del: Split.simps)
  then show ?thesis by (simp add: s_def)
qed

lemma ParseNumber_sentinels:
  "ParseNumber ''min'' = Inr minNumber \<and> ParseNumber ''max'' = Inr maxNumber"
  by code_simp

lemma integral_round_trip: "integral v \<Longrightarrow> ParseNumber (Number_String v) = Inr v"
proof -
  assume i: "integral v"
  have u: "0 \<le> uint (Value v)" "uint (Value v) < 2 ^ 64"
    using uint_lt2p [of "Value v"] by simp_all
  show ?thesis
  proof (cases "Kind v")
    case Positive
    then show ?thesis
      using ParseNumber_digits10 [OF u] i
      by (cases v) (simp add: Number_String_def FormatUint_def integral_def)
  next
    case Negative
    then show ?thesis
      using ParseNumber_minus_digits10 [OF u] i
      by (cases v) (simp add: Number_String_def FormatUint_def integral_def)
  next
    case MinNumber
    then show ?thesis
      using ParseNumber_sentinels i
      by (cases v) (simp add: Number_String_def integral_def minNumber_def)
  next
    case MaxNumber
    then show ?thesis
      using ParseNumber_sentinels i
      by (cases v) (simp add: Number_String_def integral_def maxNumber_def)
  qed
qed


lemma ParseNumber_integral: "ParseNumber s = Inr v \<Longrightarrow> Decimal v = 0 \<Longrightarrow> integral v"
  by (auto simp: ParseNumber_def Let_def integral_def minNumber_def maxNumber_def
      split: if_splits sum.splits)

lemma ParseNumber_1:
  "ParseNumber ''1'' = Inr \<lparr>Kind = Positive, Value = 1, Decimal = 0\<rparr>"
  by code_simp

lemma Number_String_1_5:
  "Number_String \<lparr>Kind = Positive, Value = 1, Decimal = 3 / 2\<rparr> = ''1''"
  by code_simp

text \<open>
  C5. \<open>Number.String\<close> renders the discriminant and the magnitude only. The Number
  parsed from \<open>1.5\<close> renders as \<open>1\<close>, which parses to a Number with \<open>Decimal\<close> 0, and
  \<open>Number.Equal\<close> tells the two apart.
\<close>

theorem C5_decimal_not_rendered:
  "ParseNumber ''1.5'' = Inr \<lparr>Kind = Positive, Value = 1, Decimal = 3 / 2\<rparr>
   \<and> Number_String \<lparr>Kind = Positive, Value = 1, Decimal = 3 / 2\<rparr> = ''1''
   \<and> ParseNumber ''1'' = Inr \<lparr>Kind = Positive, Value = 1, Decimal = 0\<rparr>
   \<and> \<not> Number_Equal \<lparr>Kind = Positive, Value = 1, Decimal = 0\<rparr>
          \<lparr>Kind = Positive, Value = 1, Decimal = 3 / 2\<rparr>"
  by (simp add: ParseNumber_1_5 ParseNumber_1 Number_String_1_5 Number_Equal_def)

end
